theory Spec2Isabelle
  imports Complex_Main
begin

section \<open>Python strings\<close>

text \<open>
  A Python \<open>str\<close> is a sequence of Unicode code points. A code point up to U+00FF is the
  \<open>char\<close> with that code; \<open>Above n\<close> is the code point \<open>0x100 + n\<close>.
\<close>

datatype pychar = Latin1 char | Above nat

type_synonym pystr = "pychar list"

fun codepoint :: "pychar \<Rightarrow> nat" where
  \<comment> \<open>\<open>ord(c)\<close>\<close>
  "codepoint (Latin1 c) = of_char c"
| "codepoint (Above n) = 256 + n"

definition of_codepoint :: "nat \<Rightarrow> pychar" where
  \<comment> \<open>\<open>chr(n)\<close>\<close>
  "of_codepoint n = (if n < 256 then Latin1 (char_of n) else Above (n - 256))"

definition str :: "string \<Rightarrow> pystr" where
  \<comment> \<open>a string literal of the source\<close>
  "str s = map Latin1 s"

definition LF :: pychar where
  \<comment> \<open>\<open>\n\<close>\<close>
  "LF = Latin1 (CHR 0x0A)"

definition CR :: pychar where
  \<comment> \<open>\<open>\r\<close>\<close>
  "CR = Latin1 (CHR 0x0D)"

fun isspace :: "pychar \<Rightarrow> bool" where
  \<comment> \<open>the characters removed by \<open>str.strip()\<close> and matched by \<open>\s\<close>\<close>
  "isspace (Latin1 c) = (c \<in> set [CHR 0x09, CHR 0x0A, CHR 0x0B, CHR 0x0C, CHR 0x0D,
                                    CHR 0x1C, CHR 0x1D, CHR 0x1E, CHR 0x1F, CHR 0x20,
                                    CHR 0x85, CHR 0xA0])"
| "isspace (Above n) = (256 + n \<in> set [0x1680, 0x2000, 0x2001, 0x2002, 0x2003, 0x2004,
                                      0x2005, 0x2006, 0x2007, 0x2008, 0x2009, 0x200A,
                                      0x2028, 0x2029, 0x202F, 0x205F, 0x3000])"

fun is_linebreak :: "pychar \<Rightarrow> bool" where
  \<comment> \<open>the line boundaries of \<open>str.splitlines()\<close>\<close>
  "is_linebreak (Latin1 c) = (c \<in> set [CHR 0x0A, CHR 0x0B, CHR 0x0C, CHR 0x0D,
                                         CHR 0x1C, CHR 0x1D, CHR 0x1E, CHR 0x85])"
| "is_linebreak (Above n) = (256 + n = 0x2028 \<or> 256 + n = 0x2029)"

text \<open>
  The characters matched by \<open>\w\<close> are the alphanumeric ones and the underscore. For the
  code points above U+00FF the alphanumeric test of Python's Unicode database is the
  parameter \<open>alnum\<close>.
\<close>

fun isword :: "(nat \<Rightarrow> bool) \<Rightarrow> pychar \<Rightarrow> bool" where
  "isword alnum (Latin1 c) = (let n = (of_char c :: nat) in
      (48 \<le> n \<and> n \<le> 57) \<or> (65 \<le> n \<and> n \<le> 90) \<or> n = 95 \<or> (97 \<le> n \<and> n \<le> 122) \<or>
      n = 170 \<or> n = 178 \<or> n = 179 \<or> n = 181 \<or> n = 185 \<or> n = 186 \<or>
      n = 188 \<or> n = 189 \<or> n = 190 \<or>
      (192 \<le> n \<and> n \<le> 214) \<or> (216 \<le> n \<and> n \<le> 246) \<or> (248 \<le> n \<and> n \<le> 255))"
| "isword alnum (Above n) = alnum (256 + n)"

fun splitlines_from :: "pystr \<Rightarrow> pystr \<Rightarrow> pystr list" where
  \<comment> \<open>first argument: the line read so far\<close>
  "splitlines_from cur [] = (if cur = [] then [] else [cur])"
| "splitlines_from cur (c # cs) =
     (if c = CR then
        (case cs of
           [] \<Rightarrow> cur # splitlines_from [] cs
         | d # ds \<Rightarrow> if d = LF then cur # splitlines_from [] ds
                     else cur # splitlines_from [] cs)
      else if is_linebreak c then cur # splitlines_from [] cs
      else splitlines_from (cur @ [c]) cs)"

definition splitlines :: "pystr \<Rightarrow> pystr list" where
  \<comment> \<open>\<open>code.splitlines()\<close>\<close>
  "splitlines code = splitlines_from [] code"

definition strip :: "pystr \<Rightarrow> pystr" where
  \<comment> \<open>\<open>s.strip()\<close>\<close>
  "strip s = rev (dropWhile isspace (rev (dropWhile isspace s)))"

fun startswith :: "pystr \<Rightarrow> pystr \<Rightarrow> bool" where
  \<comment> \<open>\<open>s.startswith(p)\<close>\<close>
  "startswith s [] = True"
| "startswith [] (p # ps) = False"
| "startswith (c # cs) (p # ps) = (c = p \<and> startswith cs ps)"

definition startswith_any :: "pystr \<Rightarrow> pystr list \<Rightarrow> bool" where
  \<comment> \<open>\<open>s.startswith((p1, p2, ...))\<close>\<close>
  "startswith_any s ps = list_ex (startswith s) ps"

fun str_find :: "pystr \<Rightarrow> pystr \<Rightarrow> int" where
  \<comment> \<open>\<open>s.find(sub)\<close>: the least index where \<open>sub\<close> starts, or \<open>-1\<close>\<close>
  "str_find [] sub = (if sub = [] then 0 else -1)"
| "str_find (c # cs) sub =
     (if startswith (c # cs) sub then 0
      else (let i = str_find cs sub in if i < 0 then -1 else i + 1))"

definition str_contains :: "pystr \<Rightarrow> pystr \<Rightarrow> bool" where
  \<comment> \<open>\<open>sub in s\<close>\<close>
  "str_contains sub s = (0 \<le> str_find s sub)"

definition slice_index :: "pystr \<Rightarrow> int \<Rightarrow> nat" where
  \<comment> \<open>how a slice bound is read: negative bounds count from the end, all are clipped\<close>
  "slice_index s i =
     (if i < 0 then nat (max 0 (int (length s) + i)) else min (nat i) (length s))"

definition slice_to :: "pystr \<Rightarrow> int \<Rightarrow> pystr" where
  \<comment> \<open>\<open>s[:j]\<close>\<close>
  "slice_to s j = take (slice_index s j) s"

definition slice_from :: "pystr \<Rightarrow> int \<Rightarrow> pystr" where
  \<comment> \<open>\<open>s[i:]\<close>\<close>
  "slice_from s i = drop (slice_index s i) s"

definition slice :: "pystr \<Rightarrow> int \<Rightarrow> int \<Rightarrow> pystr" where
  \<comment> \<open>\<open>s[i:j]\<close>\<close>
  "slice s i j = drop (slice_index s i) (take (slice_index s j) s)"

definition remove_char :: "pychar \<Rightarrow> pystr \<Rightarrow> pystr" where
  \<comment> \<open>\<open>s.replace(c, '')\<close> for a one-character \<open>c\<close>\<close>
  "remove_char c s = filter (\<lambda>x. x \<noteq> c) s"

fun join :: "pystr \<Rightarrow> pystr list \<Rightarrow> pystr" where
  \<comment> \<open>\<open>sep.join(xs)\<close>\<close>
  "join sep [] = []"
| "join sep [x] = x"
| "join sep (x # y # ys) = x @ sep @ join sep (y # ys)"

section \<open>The result record\<close>

datatype py_error = SyntaxError | ZeroDivisionError | OtherError

record function_info =
  fn_name :: pystr
  fn_line :: nat
  fn_complexity :: nat
  fn_args :: nat

record class_info =
  cl_name :: pystr
  cl_line :: nat
  cl_methods :: nat

text \<open>
  \<open>comment_ratio\<close> is the quotient \<open>comment_lines / lines_of_code\<close> of two Python ints; the
  float Python stores is the correctly rounded value of this exact quotient, which the
  model keeps as a rational.
\<close>

record AnalysisResult =
  lines_of_code :: nat
  comment_lines :: nat
  function_count :: nat
  class_count :: nat
  cyclomatic_complexity :: nat
  comment_ratio :: rat
  imports_list :: "pystr list"  \<comment> \<open>the field \<open>imports\<close>\<close>
  functions_list :: "function_info list"  \<comment> \<open>the field \<open>functions\<close>\<close>
  classes_list :: "class_info list"  \<comment> \<open>the field \<open>classes\<close>\<close>
  comments :: "pystr list"

definition new_result :: AnalysisResult where
  \<comment> \<open>\<open>AnalysisResult()\<close>: the dataclass defaults, with \<open>__post_init__\<close> applied\<close>
  "new_result = \<lparr>lines_of_code = 0, comment_lines = 0, function_count = 0, class_count = 0,
     cyclomatic_complexity = 0, comment_ratio = 0, imports_list = [], functions_list = [],
     classes_list = [], comments = []\<rparr>"

definition truediv :: "nat \<Rightarrow> nat \<Rightarrow> py_error + rat" where
  \<comment> \<open>\<open>a / b\<close> on ints\<close>
  "truediv a b = (if b = 0 then Inl ZeroDivisionError else Inr (of_nat a / of_nat b))"

definition ratio_of :: "nat \<Rightarrow> nat \<Rightarrow> py_error + rat" where
  \<comment> \<open>\<open>comment_lines / result.lines_of_code if result.lines_of_code > 0 else 0\<close>\<close>
  "ratio_of c n = (if n > 0 then truediv c n else Inr 0)"

section \<open>The generic analysis\<close>

definition generic_comment_line :: "pystr \<Rightarrow> bool" where
  "generic_comment_line line =
     startswith_any (strip line) [str ''//'', str ''#'', str ''/*'', str ''*'']"

definition analyze_generic :: "pystr \<Rightarrow> py_error + AnalysisResult" where
  \<comment> \<open>\<open>_analyze_generic\<close>\<close>
  "analyze_generic code =
     (let result = new_result;
          lines = splitlines code;
          result = result\<lparr>lines_of_code := length lines\<rparr>;
          comment_count = length (filter generic_comment_line lines);
          result = result\<lparr>comment_lines := comment_count\<rparr>
      in case ratio_of comment_count (lines_of_code result) of
           Inl e \<Rightarrow> Inl e
         | Inr q \<Rightarrow> Inr (result\<lparr>comment_ratio := q\<rparr>))"

section \<open>Regular expressions\<close>

text \<open>
  The fragment of Python's \<open>re\<close> syntax that the four patterns of the analyzer use:
  literals, the classes \<open>\s\<close>, \<open>\w\<close> and \<open>[^c]\<close> under the greedy \<open>*\<close> and \<open>+\<close>, sequence,
  alternation and the greedy \<open>?\<close>. Groups only delimit, since the analyzer takes the length
  of the list that \<open>re.findall\<close> returns.
\<close>

datatype cclass = CSpace | CWord | CNot pychar

datatype regex =
    Lit pystr
  | Star cclass
  | Plus cclass
  | Seq regex regex
  | Alt regex regex
  | Opt regex

fun in_class :: "(nat \<Rightarrow> bool) \<Rightarrow> cclass \<Rightarrow> pychar \<Rightarrow> bool" where
  "in_class alnum CSpace c = isspace c"
| "in_class alnum CWord c = isword alnum c"
| "in_class alnum (CNot x) c = (c \<noteq> x)"

definition rep_ends :: "(pychar \<Rightarrow> bool) \<Rightarrow> nat \<Rightarrow> pystr \<Rightarrow> pystr list" where
  \<comment> \<open>a greedy repetition of at least \<open>m\<close> characters: the longest run first\<close>
  "rep_ends p m s = map (\<lambda>k. drop k s) (rev [m ..< Suc (length (takeWhile p s))])"

text \<open>
  \<open>ends alnum r s\<close> lists what is left of \<open>s\<close> after each way of matching \<open>r\<close> at its start, in
  the order in which the backtracking matcher tries them.
\<close>

fun ends :: "(nat \<Rightarrow> bool) \<Rightarrow> regex \<Rightarrow> pystr \<Rightarrow> pystr list" where
  "ends alnum (Lit w) s = (if startswith s w then [drop (length w) s] else [])"
| "ends alnum (Star c) s = rep_ends (in_class alnum c) 0 s"
| "ends alnum (Plus c) s = rep_ends (in_class alnum c) 1 s"
| "ends alnum (Seq a b) s = concat (map (ends alnum b) (ends alnum a s))"
| "ends alnum (Alt a b) s = ends alnum a s @ ends alnum b s"
| "ends alnum (Opt a) s = ends alnum a s @ [s]"

text \<open>
  \<open>len(re.findall(r, s))\<close>: the matches are found from left to right and do not overlap.
  None of the analyzer's patterns matches the empty pystr; for an empty match the scan
  moves one character on.
\<close>

fun findall_count :: "(nat \<Rightarrow> bool) \<Rightarrow> regex \<Rightarrow> pystr \<Rightarrow> nat" where
  "findall_count alnum r s =
     (case ends alnum r s of
        [] \<Rightarrow> (case s of [] \<Rightarrow> 0 | c # t \<Rightarrow> findall_count alnum r t)
      | e # es \<Rightarrow>
          (if length e < length s then Suc (findall_count alnum r e)
           else (case s of [] \<Rightarrow> 1 | c # t \<Rightarrow> Suc (findall_count alnum r t))))"

declare findall_count.simps [simp del]

fun cat :: "regex list \<Rightarrow> regex" where
  "cat [] = Lit []"
| "cat [r] = r"
| "cat (r # rs) = Seq r (cat rs)"

fun alts :: "regex list \<Rightarrow> regex" where
  "alts [] = Lit []"
| "alts [r] = r"
| "alts (r # rs) = Alt r (alts rs)"

section \<open>The Java analysis\<close>

record java_scan =
  j_comment_lines :: nat
  j_comments :: "pystr list"
  j_in_block_comment :: bool
  j_block_comment_content :: "pystr list"

definition java_step :: "java_scan \<Rightarrow> pystr \<Rightarrow> java_scan" where
  \<comment> \<open>the body of \<open>for line in lines\<close> in \<open>_analyze_java\<close>\<close>
  "java_step st line =
     (let stripped = strip line in
      if j_in_block_comment st then
        (let st =
           (if str_contains (str ''*/'') line then
              (let st = st\<lparr>j_in_block_comment := False\<rparr>;
                   end_idx = str_find line (str ''*/'');
                   comment_text = strip (slice_to line end_idx);
                   st = (if comment_text \<noteq> []
                         then st\<lparr>j_block_comment_content :=
                                   j_block_comment_content st @ [comment_text]\<rparr>
                         else st)
               in if j_block_comment_content st \<noteq> []
                  then st\<lparr>j_comments := j_comments st @ [join (str '' '') (j_block_comment_content st)],
                          j_block_comment_content := []\<rparr>
                  else st)
            else
              (let comment_text = strip (remove_char (Latin1 (CHR ''*'')) line)
               in if comment_text \<noteq> []
                  then st\<lparr>j_block_comment_content :=
                            j_block_comment_content st @ [comment_text]\<rparr>
                  else st))
         in st\<lparr>j_comment_lines := j_comment_lines st + 1\<rparr>)
      else if startswith stripped (str ''//'') then
        (let st = st\<lparr>j_comment_lines := j_comment_lines st + 1\<rparr>;
             comment_text = strip (slice_from stripped 2)
         in if comment_text \<noteq> [] then st\<lparr>j_comments := j_comments st @ [comment_text]\<rparr>
            else st)
      else if startswith stripped (str ''/*'') then
        (let st = st\<lparr>j_in_block_comment := True\<rparr>;
             st = st\<lparr>j_comment_lines := j_comment_lines st + 1\<rparr>;
             start_idx = str_find stripped (str ''/*'') + 2
         in if str_contains (str ''*/'') stripped then
              (let st = st\<lparr>j_in_block_comment := False\<rparr>;
                   end_idx = str_find stripped (str ''*/'');
                   comment_text = strip (slice stripped start_idx end_idx)
               in if comment_text \<noteq> [] then st\<lparr>j_comments := j_comments st @ [comment_text]\<rparr>
                  else st)
            else
              (let comment_text = strip (slice_from stripped start_idx)
               in if comment_text \<noteq> []
                  then st\<lparr>j_block_comment_content :=
                            j_block_comment_content st @ [comment_text]\<rparr>
                  else st))
      else st)"

definition java_scan_init :: java_scan where
  "java_scan_init = \<lparr>j_comment_lines = 0, j_comments = [], j_in_block_comment = False,
     j_block_comment_content = []\<rparr>"

definition java_function_pattern :: regex where
  \<comment> \<open>\<open>(public|private|protected)\s+\w+\s+\w+\s*\([^)]*\)\s*\{\<close>\<close>
  "java_function_pattern =
     cat [alts [Lit (str ''public''), Lit (str ''private''), Lit (str ''protected'')], Plus CSpace, Plus CWord,
          Plus CSpace, Plus CWord, Star CSpace, Lit (str ''(''), Star (CNot (Latin1 (CHR '')''))), Lit (str '')''),
          Star CSpace, Lit (str ''{'')]"

definition java_class_pattern :: regex where
  \<comment> \<open>\<open>(public|private|protected)?\s*(class|interface|enum)\s+\w+\<close>\<close>
  "java_class_pattern =
     cat [Opt (alts [Lit (str ''public''), Lit (str ''private''), Lit (str ''protected'')]), Star CSpace,
          alts [Lit (str ''class''), Lit (str ''interface''), Lit (str ''enum'')], Plus CSpace, Plus CWord]"

definition analyze_java_try :: "(nat \<Rightarrow> bool) \<Rightarrow> pystr \<Rightarrow> py_error + AnalysisResult" where
  \<comment> \<open>the \<open>try\<close> block of \<open>_analyze_java\<close>\<close>
  "analyze_java_try alnum code =
     (let result = new_result;
          lines = splitlines code;
          result = result\<lparr>lines_of_code := length lines\<rparr>;
          st = foldl java_step java_scan_init lines;
          result = result\<lparr>function_count := findall_count alnum java_function_pattern code\<rparr>;
          result = result\<lparr>class_count := findall_count alnum java_class_pattern code\<rparr>;
          result = result\<lparr>comment_lines := j_comment_lines st\<rparr>
      in case ratio_of (j_comment_lines st) (lines_of_code result) of
           Inl e \<Rightarrow> Inl e
         | Inr q \<Rightarrow> Inr (result\<lparr>comment_ratio := q, comments := j_comments st\<rparr>))"

definition analyze_java :: "(nat \<Rightarrow> bool) \<Rightarrow> pystr \<Rightarrow> py_error + AnalysisResult" where
  \<comment> \<open>\<open>_analyze_java\<close>: any exception of the \<open>try\<close> block leads to the generic analysis\<close>
  "analyze_java alnum code =
     (case analyze_java_try alnum code of
        Inl e \<Rightarrow> analyze_generic code
      | Inr result \<Rightarrow> Inr result)"

section \<open>The JavaScript analysis\<close>

record js_scan =
  s_comment_lines :: nat
  s_comments :: "pystr list"
  s_in_block_comment :: bool

definition js_step :: "js_scan \<Rightarrow> pystr \<Rightarrow> js_scan" where
  \<comment> \<open>the body of \<open>for line in lines\<close> in \<open>_analyze_javascript\<close>\<close>
  "js_step st line =
     (let stripped = strip line in
      if s_in_block_comment st then
        (let st =
           (if str_contains (str ''*/'') line then
              (let st = st\<lparr>s_in_block_comment := False\<rparr>;
                   end_idx = str_find line (str ''*/'');
                   comment_text = strip (slice_to line end_idx)
               in if comment_text \<noteq> [] then st\<lparr>s_comments := s_comments st @ [comment_text]\<rparr>
                  else st)
            else st)
         in st\<lparr>s_comment_lines := s_comment_lines st + 1\<rparr>)
      else if startswith stripped (str ''//'') then
        (let st = st\<lparr>s_comment_lines := s_comment_lines st + 1\<rparr>;
             comment_text = strip (slice_from stripped 2)
         in if comment_text \<noteq> [] then st\<lparr>s_comments := s_comments st @ [comment_text]\<rparr>
            else st)
      else if startswith stripped (str ''/*'') then
        (let st = st\<lparr>s_in_block_comment := True\<rparr>;
             st = st\<lparr>s_comment_lines := s_comment_lines st + 1\<rparr>;
             start_idx = str_find stripped (str ''/*'') + 2
         in if str_contains (str ''*/'') stripped then
              (let st = st\<lparr>s_in_block_comment := False\<rparr>;
                   end_idx = str_find stripped (str ''*/'');
                   comment_text = strip (slice stripped start_idx end_idx)
               in if comment_text \<noteq> [] then st\<lparr>s_comments := s_comments st @ [comment_text]\<rparr>
                  else st)
            else
              (let comment_text = strip (slice_from stripped start_idx)
               in if comment_text \<noteq> [] then st\<lparr>s_comments := s_comments st @ [comment_text]\<rparr>
                  else st))
      else st)"

definition js_scan_init :: js_scan where
  "js_scan_init = \<lparr>s_comment_lines = 0, s_comments = [], s_in_block_comment = False\<rparr>"

definition js_function_pattern :: regex where
  \<comment> \<open>\<open>(function\s+\w+|const\s+\w+\s*=\s*\([^)]*\)\s*=>|\w+\s*\([^)]*\)\s*\{)\<close>\<close>
  "js_function_pattern =
     alts [cat [Lit (str ''function''), Plus CSpace, Plus CWord],
           cat [Lit (str ''const''), Plus CSpace, Plus CWord, Star CSpace, Lit (str ''=''), Star CSpace,
                Lit (str ''(''), Star (CNot (Latin1 (CHR '')''))), Lit (str '')''), Star CSpace, Lit (str ''=>'')],
           cat [Plus CWord, Star CSpace, Lit (str ''(''), Star (CNot (Latin1 (CHR '')''))), Lit (str '')''),
                Star CSpace, Lit (str ''{'')]]"

definition js_class_pattern :: regex where
  \<comment> \<open>\<open>(class\s+\w+|function\s+\w+\s*\([^)]*\)\s*\{)\<close>\<close>
  "js_class_pattern =
     alts [cat [Lit (str ''class''), Plus CSpace, Plus CWord],
           cat [Lit (str ''function''), Plus CSpace, Plus CWord, Star CSpace, Lit (str ''(''),
                Star (CNot (Latin1 (CHR '')''))), Lit (str '')''), Star CSpace, Lit (str ''{'')]]"

definition analyze_javascript :: "(nat \<Rightarrow> bool) \<Rightarrow> pystr \<Rightarrow> py_error + AnalysisResult" where
  \<comment> \<open>\<open>_analyze_javascript\<close>\<close>
  "analyze_javascript alnum code =
     (let result = new_result;
          lines = splitlines code;
          result = result\<lparr>lines_of_code := length lines\<rparr>;
          st = foldl js_step js_scan_init lines;
          result = result\<lparr>function_count := findall_count alnum js_function_pattern code\<rparr>;
          result = result\<lparr>class_count := findall_count alnum js_class_pattern code\<rparr>;
          result = result\<lparr>comment_lines := s_comment_lines st\<rparr>
      in case ratio_of (s_comment_lines st) (lines_of_code result) of
           Inl e \<Rightarrow> Inl e
         | Inr q \<Rightarrow> Inr (result\<lparr>comment_ratio := q, comments := s_comments st\<rparr>))"

section \<open>The Python analysis\<close>

text \<open>
  The syntax tree of the \<open>ast\<close> module: a node has its class, with the attributes the
  analyzer reads, and its child nodes in the order of \<open>ast.iter_child_nodes\<close>. Node classes
  the analyzer does not test for are \<open>ast_Other\<close>.
\<close>

datatype node_kind =
    ast_Module
  | ast_FunctionDef pystr nat nat  \<comment> \<open>\<open>name\<close>, \<open>lineno\<close>, \<open>len(args.args)\<close>\<close>
  | ast_AsyncFunctionDef pystr nat nat
  | ast_ClassDef pystr nat  \<comment> \<open>\<open>name\<close>, \<open>lineno\<close>\<close>
  | ast_Import "pystr list"  \<comment> \<open>the \<open>name\<close> of each alias in \<open>names\<close>\<close>
  | ast_ImportFrom "pystr option" "pystr list"  \<comment> \<open>\<open>module\<close>, the alias names\<close>
  | ast_If | ast_While | ast_For | ast_AsyncFor | ast_AsyncWith | ast_Try
  | ast_ExceptHandler | ast_Assert | ast_BoolOp | ast_comprehension
  | ast_Other

datatype py_ast = Node (kind: node_kind) (children: "py_ast list")

fun queue_size :: "py_ast list \<Rightarrow> nat" where
  "queue_size q = sum_list (map size q)"

function walk_queue :: "py_ast list \<Rightarrow> py_ast list" where
  \<comment> \<open>the loop of \<open>ast.walk\<close>: take the first node of \<open>todo\<close>, add its children at the end\<close>
  "walk_queue [] = []"
| "walk_queue (node # todo) = node # walk_queue (todo @ children node)"
  by pat_completeness auto
termination
proof (relation "measure queue_size")
  show "wf (measure queue_size)" by simp
next
  fix node :: py_ast and todo :: "py_ast list"
  have "sum_list (map size (children node)) < size node"
    by (cases node) (simp add: size_list_conv_sum_list)
  then show "(todo @ children node, node # todo) \<in> measure queue_size"
    by simp
qed

definition walk :: "py_ast \<Rightarrow> py_ast list" where
  \<comment> \<open>\<open>ast.walk(node)\<close>\<close>
  "walk node = walk_queue [node]"

definition is_FunctionDef :: "py_ast \<Rightarrow> bool" where
  \<comment> \<open>\<open>isinstance(node, ast.FunctionDef)\<close>\<close>
  "is_FunctionDef node =
     (case kind node of ast_FunctionDef name lineno nargs \<Rightarrow> True | _ \<Rightarrow> False)"

definition is_branching :: "py_ast \<Rightarrow> bool" where
  \<comment> \<open>the two \<open>isinstance\<close> tests of \<open>_calculate_cyclomatic_complexity\<close>\<close>
  "is_branching child =
     (kind child \<in> set [ast_If, ast_While, ast_For, ast_AsyncFor, ast_AsyncWith, ast_Try,
                         ast_ExceptHandler, ast_Assert, ast_BoolOp]
      \<or> kind child = ast_comprehension)"

definition complexity_step :: "nat \<Rightarrow> py_ast \<Rightarrow> nat" where
  "complexity_step complexity child =
     (if kind child \<in> set [ast_If, ast_While, ast_For, ast_AsyncFor, ast_AsyncWith, ast_Try,
                            ast_ExceptHandler, ast_Assert, ast_BoolOp]
      then complexity + 1
      else if kind child = ast_comprehension then complexity + 1
      else complexity)"

definition calculate_cyclomatic_complexity :: "py_ast \<Rightarrow> nat" where
  \<comment> \<open>\<open>_calculate_cyclomatic_complexity\<close>\<close>
  "calculate_cyclomatic_complexity node = foldl complexity_step 1 (walk node)"

text \<open>
  In \<open>visit_node\<close> the methods of a class are counted among all children of the class
  node: only the statements of \<open>body\<close> can be function definitions, the other children
  (bases, keywords, decorators, type parameters) are not statements.
\<close>

definition visit_node :: "AnalysisResult \<Rightarrow> py_ast \<Rightarrow> AnalysisResult" where
  \<comment> \<open>the body of \<open>for node in ast.walk(tree)\<close> in \<open>_analyze_python\<close>\<close>
  "visit_node result node =
     (case kind node of
        ast_FunctionDef name lineno nargs \<Rightarrow>
          (let result = result\<lparr>function_count := function_count result + 1\<rparr>;
               func_complexity = calculate_cyclomatic_complexity node;
               result = result\<lparr>cyclomatic_complexity :=
                                  max (cyclomatic_complexity result) func_complexity\<rparr>
           in result\<lparr>functions_list := functions_list result @
                [\<lparr>fn_name = name, fn_line = lineno, fn_complexity = func_complexity,
                  fn_args = nargs\<rparr>]\<rparr>)
      | ast_ClassDef name lineno \<Rightarrow>
          (let result = result\<lparr>class_count := class_count result + 1\<rparr>
           in result\<lparr>classes_list := classes_list result @
                [\<lparr>cl_name = name, cl_line = lineno,
                  cl_methods = length (filter is_FunctionDef (children node))\<rparr>]\<rparr>)
      | ast_Import names \<Rightarrow> result\<lparr>imports_list := imports_list result @ names\<rparr>
      | ast_ImportFrom m names \<Rightarrow>
          (let module = (case m of None \<Rightarrow> [] | Some x \<Rightarrow> x)
           in result\<lparr>imports_list := imports_list result @
                map (\<lambda>alias_name. module @ str ''.'' @ alias_name) names\<rparr>)
      | _ \<Rightarrow> result)"

definition python_comment_step :: "nat \<times> pystr list \<Rightarrow> pystr \<Rightarrow> nat \<times> pystr list" where
  \<comment> \<open>the body of \<open>for line in lines\<close> in \<open>_analyze_python\<close>, on \<open>(comment_lines, comments)\<close>\<close>
  "python_comment_step st line =
     (case st of (comment_count, comment_texts) \<Rightarrow>
        (let line_stripped = strip line in
         if startswith line_stripped (str ''#'')
            \<and> \<not> startswith line_stripped (replicate 70 (Latin1 (CHR ''#'')))
         then
           (let comment_count = comment_count + 1;
                comment_text = strip (slice_from line_stripped 1)
            in if comment_text \<noteq> [] then (comment_count, comment_texts @ [comment_text])
               else (comment_count, comment_texts))
         else (comment_count, comment_texts)))"

definition analyze_python_try ::
  "(pystr \<Rightarrow> py_error + py_ast) \<Rightarrow> pystr \<Rightarrow> py_error + AnalysisResult" where
  \<comment> \<open>the \<open>try\<close> block of \<open>_analyze_python\<close>; \<open>parse\<close> is \<open>ast.parse\<close>\<close>
  "analyze_python_try parse code =
     (case parse code of
        Inl e \<Rightarrow> Inl e
      | Inr tree \<Rightarrow>
          (let result = new_result;
               result = result\<lparr>lines_of_code := length (splitlines code)\<rparr>;
               result = foldl visit_node result (walk tree);
               lines = splitlines code;
               st = foldl python_comment_step (0, []) lines;
               result = result\<lparr>comment_lines := fst st\<rparr>
           in case ratio_of (fst st) (lines_of_code result) of
                Inl e \<Rightarrow> Inl e
              | Inr q \<Rightarrow> Inr (result\<lparr>comment_ratio := q, comments := snd st\<rparr>)))"

definition analyze_python ::
  "(pystr \<Rightarrow> py_error + py_ast) \<Rightarrow> pystr \<Rightarrow> py_error + AnalysisResult" where
  \<comment> \<open>\<open>_analyze_python\<close>: any exception of the \<open>try\<close> block leads to the generic analysis\<close>
  "analyze_python parse code =
     (case analyze_python_try parse code of
        Inl e \<Rightarrow> analyze_generic code
      | Inr result \<Rightarrow> Inr result)"

section \<open>The dispatcher\<close>

definition analyze_code ::
  "(nat \<Rightarrow> bool) \<Rightarrow> (pystr \<Rightarrow> py_error + py_ast) \<Rightarrow> pystr \<Rightarrow> pystr
     \<Rightarrow> py_error + AnalysisResult" where
  \<comment> \<open>\<open>analyze_code\<close>; \<open>alnum\<close> and \<open>parse\<close> stand for the Unicode database and \<open>ast.parse\<close>\<close>
  "analyze_code alnum parse code language =
     (if language = str ''python'' then analyze_python parse code
      else if language = str ''java'' then analyze_java alnum code
      else if language = str ''javascript'' then analyze_javascript alnum code
      else analyze_generic code)"

section \<open>Definitions for the statements\<close>

definition is_line_boundary :: "pychar \<Rightarrow> bool" where
  \<comment> \<open>the code points of \<open>\n\<close>, \<open>\v\<close>, \<open>\f\<close>, \<open>\r\<close>, \<open>\x1c\<close>, \<open>\x1d\<close>,
      \<open>\x1e\<close>, \<open>\x85\<close>, U+2028 and U+2029\<close>
  "is_line_boundary c =
     (codepoint c \<in> set [0x0A, 0x0B, 0x0C, 0x0D, 0x1C, 0x1D, 0x1E, 0x85, 0x2028, 0x2029])"

definition crlf_pairs :: "pystr \<Rightarrow> nat" where
  \<comment> \<open>how often \<open>\r\<close> is directly followed by \<open>\n\<close>\<close>
  "crlf_pairs s = length (filter (\<lambda>p. fst p = CR \<and> snd p = LF) (zip s (tl s)))"

definition line_count :: "pystr \<Rightarrow> nat" where
  \<comment> \<open>one line for each boundary character, \<open>\r\n\<close> being one boundary, and one for
      the text after the last boundary, if there is any\<close>
  "line_count s =
     (length (filter is_line_boundary s) - crlf_pairs s)
     + (if s = [] \<or> is_line_boundary (last s) then 0 else 1)"

definition newline_delimited_lines :: "pystr \<Rightarrow> nat" where
  \<comment> \<open>the lines that the character \<open>\n\<close> delimits; a final \<open>\n\<close> opens no further line\<close>
  "newline_delimited_lines s =
     length (filter (\<lambda>c. c = LF) s) + (if s = [] \<or> last s = LF then 0 else 1)"

definition alnum_none :: "nat \<Rightarrow> bool" where
  \<comment> \<open>a table for sources without characters above U+00FF\<close>
  "alnum_none n = False"

definition ast_parse :: "(pystr \<Rightarrow> py_error + py_ast) \<Rightarrow> pystr \<Rightarrow> py_error + py_ast" where
  \<comment> \<open>\<open>ast.parse\<close>: the empty source is a module without statements; on every other
      source the parser \<open>parse\<close> decides\<close>
  "ast_parse parse code = (if code = [] then Inr (Node ast_Module []) else parse code)"

definition parse_fails :: "pystr \<Rightarrow> py_error + py_ast" where
  \<comment> \<open>a parser that rejects its input\<close>
  "parse_fails code = Inl SyntaxError"

definition parse_gives :: "py_ast \<Rightarrow> pystr \<Rightarrow> py_error + py_ast" where
  \<comment> \<open>a parser that returns the given tree\<close>
  "parse_gives tree code = Inr tree"

fun descendants :: "py_ast \<Rightarrow> py_ast list" where
  \<comment> \<open>the nodes below a node: its children, their children, and so on\<close>
  "descendants (Node k cs) = concat (map (\<lambda>c. c # descendants c) cs)"

definition branching_descendants :: "py_ast \<Rightarrow> nat" where
  \<comment> \<open>how many descendants are of one of the ten branching classes\<close>
  "branching_descendants node = length (filter is_branching (descendants node))"

definition one_if_one_for :: "py_ast \<Rightarrow> bool" where
  \<comment> \<open>exactly one \<open>if\<close>, one \<open>for\<close> and no other branching node below the node\<close>
  "one_if_one_for node =
     (length (filter (\<lambda>d. kind d = ast_If) (descendants node)) = 1 \<and>
      length (filter (\<lambda>d. kind d = ast_For) (descendants node)) = 1 \<and>
      branching_descendants node = 2)"

definition python_comments :: "pystr list \<Rightarrow> pystr list" where
  \<comment> \<open>what the comment loop of \<open>_analyze_python\<close> collects from the given lines\<close>
  "python_comments lines = snd (foldl python_comment_step (0, []) lines)"

definition separator_line :: pystr where
  \<comment> \<open>a line of 70 \<open>#\<close> characters\<close>
  "separator_line = replicate 70 (Latin1 (CHR ''#''))"

definition loop_source :: pystr where
  \<comment> \<open>a function with one \<open>for\<close> and one \<open>if\<close>\<close>
  "loop_source = str ''def f(xs):\<newline>    for x in xs:\<newline>        if x:\<newline>            pass''"

definition loop_function :: py_ast where
  \<comment> \<open>the \<open>FunctionDef\<close> node of \<open>loop_source\<close>: its arguments, then the \<open>for\<close> statement\<close>
  "loop_function =
     Node (ast_FunctionDef (str ''f'') 1 1)
       [Node ast_Other [Node ast_Other []],
        Node ast_For
          [Node ast_Other [Node ast_Other []],
           Node ast_Other [Node ast_Other []],
           Node ast_If [Node ast_Other [Node ast_Other []], Node ast_Other []]]]"

definition loop_tree :: py_ast where
  \<comment> \<open>\<open>ast.parse(loop_source)\<close>\<close>
  "loop_tree = Node ast_Module [loop_function]"

definition async_source :: pystr where
  \<comment> \<open>a coroutine with one \<open>if\<close>\<close>
  "async_source = str ''async def g():\<newline>    if a:\<newline>        pass''"

definition async_tree :: py_ast where
  \<comment> \<open>\<open>ast.parse(async_source)\<close>\<close>
  "async_tree =
     Node ast_Module
       [Node (ast_AsyncFunctionDef (str ''g'') 1 0)
          [Node ast_Other [],
           Node ast_If [Node ast_Other [Node ast_Other []], Node ast_Other []]]]"

definition assign_tree :: py_ast where
  \<comment> \<open>\<open>ast.parse('x = 1')\<close>: a module with one assignment\<close>
  "assign_tree =
     Node ast_Module [Node ast_Other [Node ast_Other [Node ast_Other []], Node ast_Other []]]"

definition separator_source :: pystr where
  \<comment> \<open>an assignment, a separator line, a comment\<close>
  "separator_source = str ''x = 1\<newline>'' @ separator_line @ str ''\<newline># note''"

definition block_source :: pystr where
  \<comment> \<open>a block comment of five lines, then a function\<close>
  "block_source = str ''/* a\<newline> b\<newline> c\<newline> d\<newline> e */\<newline>function f() {}''"

definition opening_fragment :: "pystr \<Rightarrow> pystr" where
  \<comment> \<open>the text after the \<open>/*\<close> of the line that opens a block comment\<close>
  "opening_fragment line = strip (drop 2 (strip line))"

definition inner_fragment :: "pystr \<Rightarrow> pystr" where
  \<comment> \<open>the text of a line inside a block comment, without its asterisks\<close>
  "inner_fragment line = strip (remove_char (Latin1 (CHR ''*'')) line)"

definition closing_fragment :: "pystr \<Rightarrow> pystr" where
  \<comment> \<open>the text before the \<open>*/\<close> of the line that closes a block comment\<close>
  "closing_fragment line = strip (slice_to line (str_find line (str ''*/'')))"

definition block_fragments :: "pystr \<Rightarrow> pystr list \<Rightarrow> pystr \<Rightarrow> pystr list" where
  \<comment> \<open>the non-empty fragments of the lines of a block comment, in order\<close>
  "block_fragments opener middles closer =
     filter (\<lambda>f. f \<noteq> [])
       (opening_fragment opener # map inner_fragment middles @ [closing_fragment closer])"

section \<open>The analyses return a result\<close>

lemma ratio_of_Inr:
  "ratio_of c n = Inr (if n > 0 then of_nat c / of_nat n else 0)"
  by (simp add: ratio_of_def truediv_def)

lemma analyze_generic_Inr:
  "analyze_generic code =
     Inr (new_result\<lparr>lines_of_code := length (splitlines code),
            comment_lines := length (filter generic_comment_line (splitlines code)),
            comment_ratio := (if length (splitlines code) > 0
               then of_nat (length (filter generic_comment_line (splitlines code)))
                    / of_nat (length (splitlines code))
               else 0)\<rparr>)"
  by (simp add: analyze_generic_def Let_def ratio_of_Inr)

lemma analyze_java_try_Inr:
  "analyze_java_try alnum code =
     Inr (new_result\<lparr>lines_of_code := length (splitlines code),
            function_count := findall_count alnum java_function_pattern code,
            class_count := findall_count alnum java_class_pattern code,
            comment_lines := j_comment_lines (foldl java_step java_scan_init (splitlines code)),
            comment_ratio := (if length (splitlines code) > 0
               then of_nat (j_comment_lines (foldl java_step java_scan_init (splitlines code)))
                    / of_nat (length (splitlines code))
               else 0),
            comments := j_comments (foldl java_step java_scan_init (splitlines code))\<rparr>)"
  by (simp add: analyze_java_try_def Let_def ratio_of_Inr)

lemma analyze_java_Inr: "analyze_java alnum code = analyze_java_try alnum code"
  by (simp add: analyze_java_def analyze_java_try_Inr)

lemma analyze_javascript_Inr:
  "analyze_javascript alnum code =
     Inr (new_result\<lparr>lines_of_code := length (splitlines code),
            function_count := findall_count alnum js_function_pattern code,
            class_count := findall_count alnum js_class_pattern code,
            comment_lines := s_comment_lines (foldl js_step js_scan_init (splitlines code)),
            comment_ratio := (if length (splitlines code) > 0
               then of_nat (s_comment_lines (foldl js_step js_scan_init (splitlines code)))
                    / of_nat (length (splitlines code))
               else 0),
            comments := s_comments (foldl js_step js_scan_init (splitlines code))\<rparr>)"
  by (simp add: analyze_javascript_def Let_def ratio_of_Inr)

lemma visit_node_frame:
  "lines_of_code (visit_node r n) = lines_of_code r"
  "comment_lines (visit_node r n) = comment_lines r"
  "comment_ratio (visit_node r n) = comment_ratio r"
  "comments (visit_node r n) = comments r"
  by (simp_all add: visit_node_def Let_def split: node_kind.splits)

lemma foldl_visit_node_frame:
  "lines_of_code (foldl visit_node r ns) = lines_of_code r"
  "comment_lines (foldl visit_node r ns) = comment_lines r"
  "comment_ratio (foldl visit_node r ns) = comment_ratio r"
  "comments (foldl visit_node r ns) = comments r"
  by (induction ns arbitrary: r, simp_all add: visit_node_frame)+

lemma analyze_python_try_Inr:
  "parse code = Inr tree \<Longrightarrow>
   analyze_python_try parse code =
     Inr ((foldl visit_node (new_result\<lparr>lines_of_code := length (splitlines code)\<rparr>) (walk tree))
          \<lparr>comment_lines := fst (foldl python_comment_step (0, []) (splitlines code)),
           comment_ratio := (if length (splitlines code) > 0
               then of_nat (fst (foldl python_comment_step (0, []) (splitlines code)))
                    / of_nat (length (splitlines code))
               else 0),
           comments := snd (foldl python_comment_step (0, []) (splitlines code))\<rparr>)"
  by (simp add: analyze_python_try_def Let_def ratio_of_Inr foldl_visit_node_frame)

lemma analyze_python_parsed:
  "parse code = Inr tree \<Longrightarrow> analyze_python parse code = analyze_python_try parse code"
  by (simp add: analyze_python_def analyze_python_try_Inr)

lemma analyze_python_failed:
  "parse code = Inl e \<Longrightarrow> analyze_python parse code = analyze_generic code"
  by (simp add: analyze_python_def analyze_python_try_def)

lemmas analyze_paths =
  analyze_generic_Inr analyze_java_Inr analyze_java_try_Inr analyze_javascript_Inr

section \<open>The comment ratio\<close>

text \<open>
  Claim C1. Whatever the source and the language tag, \<open>analyze_code\<close> returns a result
  whose \<open>comment_ratio\<close> is \<open>comment_lines / lines_of_code\<close> when \<open>lines_of_code\<close> is
  positive, and \<open>0\<close> when it is \<open>0\<close>.
\<close>

theorem comment_ratio_invariant:
  "\<exists>r. analyze_code alnum parse code language = Inr r \<and>
       comment_ratio r =
         (if lines_of_code r > 0 then of_nat (comment_lines r) / of_nat (lines_of_code r)
          else 0)"
proof (cases "parse code")
  case (Inl e)
  then show ?thesis
    by (simp add: analyze_code_def analyze_python_failed analyze_paths)
next
  case (Inr tree)
  then show ?thesis
    by (simp add: analyze_code_def analyze_python_parsed analyze_python_try_Inr
        analyze_paths foldl_visit_node_frame)
qed

section \<open>Totality and the fallback\<close>

text \<open>
  Claim C2. \<open>analyze_code\<close> returns a result for every source and language tag: no
  exception reaches the caller. When \<open>ast.parse\<close> raises on the source, the Python
  analysis returns what the generic analysis returns on the same source.
\<close>

theorem analysis_total:
  "(\<exists>r. analyze_code alnum parse code language = Inr r) \<and>
   (\<forall>e. parse code = Inl e \<longrightarrow>
      analyze_code alnum parse code (str ''python'') = analyze_generic code)"
proof (cases "parse code")
  case (Inl e)
  then show ?thesis
    by (simp add: analyze_code_def analyze_python_failed analyze_paths)
next
  case (Inr tree)
  then show ?thesis
    by (simp add: analyze_code_def analyze_python_parsed analyze_python_try_Inr analyze_paths)
qed

theorem analysis_total_witness:
  "parse_fails (str ''def f(:'') = Inl SyntaxError \<and>
   analyze_code alnum_none parse_fails (str ''def f(:'') (str ''python'')
     = analyze_generic (str ''def f(:'') \<and>
   analyze_generic (str ''def f(:'') = Inr (new_result\<lparr>lines_of_code := 1\<rparr>)"
proof -
  have failed: "parse_fails (str ''def f(:'') = Inl SyntaxError"
    by (simp add: parse_fails_def)
  have generic: "analyze_generic (str ''def f(:'') = Inr (new_result\<lparr>lines_of_code := 1\<rparr>)"
    by code_simp
  show ?thesis
    using failed generic
      analysis_total [of alnum_none parse_fails "str ''def f(:''" "str ''python''"]
    by simp
qed

section \<open>The line count\<close>

text \<open>
  Every code point is a character, and the tables of line boundaries agree: the one of
  \<open>splitlines\<close>, by characters, and the one of \<open>line_count\<close>, by code points. The
  subtraction in \<open>line_count\<close> never cuts off: each pair \<open>\r\n\<close> has two boundary
  characters.
\<close>

lemma codepoint_of_codepoint: "codepoint (of_codepoint n) = n"
  by (simp add: of_codepoint_def)

lemma lines_of_code_splitlines:
  "\<exists>r. analyze_code alnum parse code language = Inr r \<and>
       lines_of_code r = length (splitlines code)"
proof (cases "parse code")
  case (Inl e)
  then show ?thesis
    by (simp add: analyze_code_def analyze_python_failed analyze_paths)
next
  case (Inr tree)
  then show ?thesis
    by (simp add: analyze_code_def analyze_python_parsed analyze_python_try_Inr
        analyze_paths foldl_visit_node_frame)
qed

lemma linebreak_is_boundary: "is_linebreak c = is_line_boundary c"
proof (cases c)
  case (Latin1 x)
  have "of_char x < (256::nat)"
    by simp
  then have "of_char x \<noteq> (0x2028::nat)" "of_char x \<noteq> (0x2029::nat)"
    by (simp_all del: nat_of_char_less_256)
  then show ?thesis
    using Latin1
    by (simp add: is_line_boundary_def of_char_eq_iff [where ?'a = nat, symmetric]
        del: of_char_eq_iff)
next
  case (Above n)
  then show ?thesis
    by (simp add: is_line_boundary_def)
qed

lemma CR_LF_boundaries: "is_linebreak CR" "is_linebreak LF" "CR \<noteq> LF" "LF \<noteq> CR"
  by (simp_all add: CR_def LF_def)

lemma crlf_pairs_simps:
  "crlf_pairs [] = 0"
  "crlf_pairs [c] = 0"
  "crlf_pairs (c # d # ds) = (if c = CR \<and> d = LF then 1 else 0) + crlf_pairs (d # ds)"
  by (simp_all add: crlf_pairs_def)

lemma crlf_pairs_le_CR: "crlf_pairs s \<le> length (filter (\<lambda>c. c = CR) s)"
proof (induction s)
  case Nil
  then show ?case by (simp add: crlf_pairs_simps)
next
  case (Cons c s)
  then show ?case
    by (cases s) (auto simp: crlf_pairs_simps)
qed

lemma crlf_pairs_le: "crlf_pairs s \<le> length (filter is_linebreak s)"
proof -
  have "length (filter (\<lambda>c. c = CR) s) \<le> length (filter is_linebreak s)"
    by (induction s) (auto simp: CR_LF_boundaries)
  then show ?thesis
    using crlf_pairs_le_CR [of s] by simp
qed

lemma splitlines_from_count:
  "length (splitlines_from cur s) + crlf_pairs s =
     length (filter is_linebreak s)
     + (if (s = [] \<and> cur = []) \<or> (s \<noteq> [] \<and> is_linebreak (last s)) then 0 else 1)"
proof (induction cur s rule: splitlines_from.induct)
  case (1 cur)
  then show ?case by (simp add: crlf_pairs_simps)
next
  case (2 cur c cs)
  show ?case
  proof (cases "c = CR")
    case True
    show ?thesis
    proof (cases cs)
      case Nil
      with True show ?thesis
        by (simp add: crlf_pairs_simps CR_LF_boundaries)
    next
      case (Cons d ds)
      show ?thesis
      proof (cases "d = LF")
        case lf: True
        have ih: "length (splitlines_from [] ds) + crlf_pairs ds =
            length (filter is_linebreak ds)
            + (if ds = [] \<or> (ds \<noteq> [] \<and> is_linebreak (last ds)) then 0 else 1)"
          using "2.IH"(2) [OF True Cons lf] by simp
        have "crlf_pairs (LF # ds) = crlf_pairs ds"
          by (cases ds) (simp_all add: crlf_pairs_simps CR_LF_boundaries)
        then show ?thesis
          using True Cons lf ih by (auto simp: crlf_pairs_simps CR_LF_boundaries)
      next
        case nolf: False
        have ih: "length (splitlines_from [] cs) + crlf_pairs cs =
            length (filter is_linebreak cs)
            + (if cs = [] \<or> (cs \<noteq> [] \<and> is_linebreak (last cs)) then 0 else 1)"
          using "2.IH"(3) [OF True Cons nolf] by simp
        show ?thesis
          using True Cons nolf ih by (auto simp: crlf_pairs_simps CR_LF_boundaries)
      qed
    qed
  next
    case False
    have pairs: "crlf_pairs (c # cs) = crlf_pairs cs"
      using False by (cases cs) (simp_all add: crlf_pairs_simps)
    show ?thesis
    proof (cases "is_linebreak c")
      case True
      have "length (splitlines_from [] cs) + crlf_pairs cs =
            length (filter is_linebreak cs)
            + (if cs = [] \<or> (cs \<noteq> [] \<and> is_linebreak (last cs)) then 0 else 1)"
        using "2.IH"(4) [OF False True] by simp
      then show ?thesis
        using False True pairs by auto
    next
      case nobreak: False
      have "length (splitlines_from (cur @ [c]) cs) + crlf_pairs cs =
            length (filter is_linebreak cs)
            + (if cs \<noteq> [] \<and> is_linebreak (last cs) then 0 else 1)"
        using "2.IH"(5) [OF False nobreak] by simp
      then show ?thesis
        using False nobreak pairs by auto
    qed
  qed
qed

lemma splitlines_line_count: "length (splitlines s) = line_count s"
proof -
  have "length (splitlines s) + crlf_pairs s =
      length (filter is_linebreak s) + (if s = [] \<or> is_linebreak (last s) then 0 else 1)"
    unfolding splitlines_def using splitlines_from_count [of "[]" s] by auto
  moreover have "filter is_linebreak s = filter is_line_boundary s"
    by (simp add: linebreak_is_boundary [abs_def])
  ultimately show ?thesis
    using crlf_pairs_le [of s] by (simp add: line_count_def linebreak_is_boundary)
qed

lemma line_count_newlines_only:
  assumes "\<forall>c\<in>set s. is_line_boundary c \<longrightarrow> c = LF"
  shows "line_count s = newline_delimited_lines s"
proof -
  have lf: "is_line_boundary LF"
    using CR_LF_boundaries(2) by (simp add: linebreak_is_boundary)
  have "filter is_line_boundary s = filter (\<lambda>c. c = LF) s"
    using assms lf by (intro filter_cong) auto
  moreover have "filter (\<lambda>c. c = CR) s = []"
    using assms CR_LF_boundaries by (auto simp: filter_empty_conv linebreak_is_boundary)
  then have "crlf_pairs s = 0"
    using crlf_pairs_le_CR [of s] by simp
  moreover have "is_line_boundary (last s) = (last s = LF)" if "s \<noteq> []"
    using assms lf last_in_set [OF that] by auto
  ultimately show ?thesis
    by (auto simp: line_count_def newline_delimited_lines_def)
qed

lemma findall_count_Nil: "ends alnum r [] = [] \<Longrightarrow> findall_count alnum r [] = 0"
  by (subst findall_count.simps) simp

lemma empty_source_zero:
  "analyze_code alnum (ast_parse parse) [] language = Inr new_result"
proof -
  have "ends alnum java_function_pattern [] = []" "ends alnum java_class_pattern [] = []"
    "ends alnum js_function_pattern [] = []" "ends alnum js_class_pattern [] = []"
    by (simp_all add: java_function_pattern_def java_class_pattern_def
        js_function_pattern_def js_class_pattern_def rep_ends_def str_def)
  then have counts: "findall_count alnum java_function_pattern [] = 0"
    "findall_count alnum java_class_pattern [] = 0"
    "findall_count alnum js_function_pattern [] = 0"
    "findall_count alnum js_class_pattern [] = 0"
    by (simp_all add: findall_count_Nil)
  have parsed: "ast_parse parse [] = Inr (Node ast_Module [])"
    by (simp add: ast_parse_def)
  show ?thesis
    by (simp add: analyze_code_def
        analyze_python_parsed [of "ast_parse parse" "[]", OF parsed]
        analyze_python_try_Inr [of "ast_parse parse" "[]", OF parsed]
        analyze_paths splitlines_def walk_def
        visit_node_def counts java_scan_init_def js_scan_init_def new_result_def)
qed

text \<open>
  The line separator U+2028 is a line boundary like the form feed.
\<close>

lemma line_separator_splits:
  "splitlines [Latin1 (CHR ''a''), of_codepoint 0x2028, Latin1 (CHR ''b'')] = [str ''a'', str ''b'']"
  by code_simp

text \<open>
  Claim C7, as the code has it. \<open>lines_of_code\<close> is the number of lines that
  \<open>str.splitlines\<close> yields, whatever the language tag: one line for each line boundary
  in the source (\<open>\n\<close>, \<open>\r\<close>, \<open>\v\<close>, \<open>\f\<close>, \<open>\x1c\<close>, \<open>\x1d\<close>, \<open>\x1e\<close>, \<open>\x85\<close>, U+2028,
  U+2029, where \<open>\r\n\<close> is one boundary) and one for the text after the last boundary,
  so that a final boundary opens no further line. When \<open>\n\<close> is the only boundary
  character in the source, this is the number of newline-delimited lines. The empty
  source yields the default result: every count and the ratio are \<open>0\<close>, every sequence
  is empty. The parser \<open>ast_parse parse\<close> is any parser that reads the empty source as
  \<open>ast.parse\<close> does; the line count is the same for every parser.
\<close>

theorem lines_of_code_count:
  "\<exists>r. analyze_code alnum (ast_parse parse) code language = Inr r \<and>
       lines_of_code r = line_count code \<and>
       ((\<forall>c\<in>set code. is_line_boundary c \<longrightarrow> c = LF) \<longrightarrow>
          lines_of_code r = newline_delimited_lines code) \<and>
       (code = [] \<longrightarrow> r = new_result)"
proof -
  obtain r where r: "analyze_code alnum (ast_parse parse) code language = Inr r"
    "lines_of_code r = length (splitlines code)"
    using lines_of_code_splitlines by blast
  have n: "lines_of_code r = line_count code"
    by (simp only: r(2) splitlines_line_count)
  have a: "(\<forall>c\<in>set code. is_line_boundary c \<longrightarrow> c = LF) \<longrightarrow>
      lines_of_code r = newline_delimited_lines code"
    by (simp only: n) (rule impI, rule line_count_newlines_only)
  have b: "code = [] \<longrightarrow> r = new_result"
  proof
    assume "code = []"
    then show "r = new_result"
      using r(1) empty_source_zero [of alnum parse language] by simp
  qed
  show ?thesis
    by (rule exI [of _ r]) (intro conjI r(1) n a b)
qed

theorem lines_of_code_count_witness:
  "filter is_line_boundary (str ''a\<newline>b\<newline>'') = [LF, LF] \<and>
   line_count (str ''a\<newline>b\<newline>'') = 2 \<and>
   newline_delimited_lines (str ''a\<newline>b\<newline>'') = 2 \<and>
   (\<exists>r. analyze_code alnum_none (ast_parse parse_fails) (str ''a\<newline>b\<newline>'') (str ''java'') = Inr r
        \<and> lines_of_code r = 2) \<and>
   analyze_code alnum_none (ast_parse parse_fails) [] (str ''python'') = Inr new_result"
proof -
  have breaks: "filter is_line_boundary (str ''a\<newline>b\<newline>'') = [LF, LF]"
    by code_simp
  have only: "\<forall>c\<in>set (str ''a\<newline>b\<newline>''). is_line_boundary c \<longrightarrow> c = LF"
    by code_simp
  have count: "line_count (str ''a\<newline>b\<newline>'') = 2"
    by code_simp
  have two: "newline_delimited_lines (str ''a\<newline>b\<newline>'') = 2"
    by code_simp
  obtain r where r: "analyze_code alnum_none (ast_parse parse_fails) (str ''a\<newline>b\<newline>'')
        (str ''java'') = Inr r"
    and imp: "(\<forall>c\<in>set (str ''a\<newline>b\<newline>''). is_line_boundary c \<longrightarrow> c = LF) \<longrightarrow>
         lines_of_code r = newline_delimited_lines (str ''a\<newline>b\<newline>'')"
    using lines_of_code_count [of alnum_none parse_fails "str ''a\<newline>b\<newline>''" "str ''java''"]
    by blast
  have "lines_of_code r = newline_delimited_lines (str ''a\<newline>b\<newline>'')"
    by (rule mp [OF imp only])
  then have java: "\<exists>r. analyze_code alnum_none (ast_parse parse_fails) (str ''a\<newline>b\<newline>'')
        (str ''java'') = Inr r \<and> lines_of_code r = 2"
    using r two by (intro exI [of _ r]) (simp only:)
  obtain r' where r': "analyze_code alnum_none (ast_parse parse_fails) [] (str ''python'') = Inr r'"
    and imp': "[] = ([]::pystr) \<longrightarrow> r' = new_result"
    using lines_of_code_count [of alnum_none parse_fails "[]" "str ''python''"]
    by blast
  have "r' = new_result"
    by (rule mp [OF imp' refl])
  then have python: "analyze_code alnum_none (ast_parse parse_fails) [] (str ''python'')
      = Inr new_result"
    using r' by (simp only:)
  show ?thesis
    by (intro conjI breaks count two java python)
qed

text \<open>
  The claim as the specification words it fails: a form feed is a line boundary of
  \<open>str.splitlines\<close> and not a newline. The source \<open>a\fb\<close> has one newline-delimited line
  and \<open>lines_of_code = 2\<close>.
\<close>

theorem lines_of_code_counterexample:
  "analyze_code alnum_none (ast_parse parse_fails)
       [Latin1 (CHR ''a''), Latin1 (CHR 0x0C), Latin1 (CHR ''b'')] (str ''java'')
     = Inr (new_result\<lparr>lines_of_code := 2\<rparr>) \<and>
   newline_delimited_lines [Latin1 (CHR ''a''), Latin1 (CHR 0x0C), Latin1 (CHR ''b'')] = 1"
  by code_simp

section \<open>Fields that an analysis leaves alone\<close>

text \<open>
  Claim C8. The Java and the JavaScript analysis leave \<open>cyclomatic_complexity\<close> at \<open>0\<close>
  and \<open>imports\<close> empty. The generic analysis leaves every field but \<open>lines_of_code\<close>,
  \<open>comment_lines\<close> and \<open>comment_ratio\<close> at its default.
\<close>

theorem default_fields:
  "(\<exists>r. analyze_java alnum code = Inr r \<and>
      cyclomatic_complexity r = 0 \<and> imports_list r = []) \<and>
   (\<exists>r. analyze_javascript alnum code = Inr r \<and>
      cyclomatic_complexity r = 0 \<and> imports_list r = []) \<and>
   (\<exists>r. analyze_generic code = Inr r \<and>
      function_count r = 0 \<and> class_count r = 0 \<and> cyclomatic_complexity r = 0 \<and>
      imports_list r = [] \<and> functions_list r = [] \<and> classes_list r = [] \<and> comments r = [])"
  by (simp add: analyze_paths new_result_def)

section \<open>The syntax-tree walk\<close>

lemma foldl_complexity_step:
  "foldl complexity_step c xs = c + length (filter is_branching xs)"
  by (induction xs arbitrary: c) (auto simp: complexity_step_def is_branching_def)

lemma length_filter_concat:
  "length (filter P (concat xss)) = sum_list (map (\<lambda>xs. length (filter P xs)) xss)"
  by (induction xss) simp_all

lemma count_node_descendants:
  "length (filter P (node # descendants node)) =
     (if P node then 1 else 0)
     + sum_list (map (\<lambda>c. length (filter P (c # descendants c))) (children node))"
proof (cases node)
  case (Node k cs)
  have "length (filter P (descendants (Node k cs))) =
      sum_list (map (\<lambda>c. length (filter P (c # descendants c))) cs)"
    by (simp add: length_filter_concat comp_def del: filter.simps)
  then show ?thesis
    using Node by simp
qed

lemma walk_queue_count:
  "length (filter P (walk_queue q)) =
     sum_list (map (\<lambda>n. length (filter P (n # descendants n))) q)"
proof (induction q rule: walk_queue.induct)
  case 1
  then show ?case by simp
next
  case (2 node todo)
  have "length (filter P (walk_queue (node # todo))) =
      (if P node then 1 else 0) + length (filter P (walk_queue (todo @ children node)))"
    by simp
  also have "\<dots> = (if P node then 1 else 0)
      + sum_list (map (\<lambda>n. length (filter P (n # descendants n))) (todo @ children node))"
    by (simp only: "2.IH")
  also have "\<dots> = length (filter P (node # descendants node))
      + sum_list (map (\<lambda>n. length (filter P (n # descendants n))) todo)"
    by (simp only: count_node_descendants [of P node] map_append sum_list_append)
  finally show ?case by simp
qed

lemma walk_count:
  "length (filter P (walk node)) = (if P node then 1 else 0) + length (filter P (descendants node))"
proof -
  have "length (filter P (walk node)) = length (filter P (node # descendants node))"
    unfolding walk_def by (simp only: walk_queue_count list.map sum_list.Nil sum_list.Cons add_0_right)
  then show ?thesis by simp
qed

lemma FunctionDef_not_branching: "is_FunctionDef node \<Longrightarrow> \<not> is_branching node"
  by (auto simp: is_FunctionDef_def is_branching_def split: node_kind.splits)

lemma complexity_FunctionDef:
  "is_FunctionDef node \<Longrightarrow>
   calculate_cyclomatic_complexity node = 1 + branching_descendants node"
  by (simp add: calculate_cyclomatic_complexity_def foldl_complexity_step walk_count
      FunctionDef_not_branching branching_descendants_def)

lemma visit_node_functions:
  "map fn_complexity (functions_list (visit_node r n)) =
     map fn_complexity (functions_list r)
     @ (if is_FunctionDef n then [calculate_cyclomatic_complexity n] else [])"
  "function_count (visit_node r n) = function_count r + (if is_FunctionDef n then 1 else 0)"
  "cyclomatic_complexity (visit_node r n) =
     (if is_FunctionDef n then max (cyclomatic_complexity r) (calculate_cyclomatic_complexity n)
      else cyclomatic_complexity r)"
  by (simp_all add: visit_node_def is_FunctionDef_def Let_def split: node_kind.splits)

lemma foldl_visit_node_functions:
  "map fn_complexity (functions_list (foldl visit_node r ns)) =
     map fn_complexity (functions_list r)
     @ map calculate_cyclomatic_complexity (filter is_FunctionDef ns)"
  by (induction ns arbitrary: r) (simp_all add: visit_node_functions)

lemma foldl_visit_node_count:
  "function_count (foldl visit_node r ns) = function_count r + length (filter is_FunctionDef ns)"
  by (induction ns arbitrary: r) (simp_all add: visit_node_functions)

lemma foldl_visit_node_complexity:
  "cyclomatic_complexity (foldl visit_node r ns) =
     fold max (map calculate_cyclomatic_complexity (filter is_FunctionDef ns))
       (cyclomatic_complexity r)"
  by (induction ns arbitrary: r) (simp_all add: visit_node_functions max.commute)

lemma fold_max_Max: "fold max xs (0::nat) = (if xs = [] then 0 else Max (set xs))"
proof (cases xs)
  case Nil
  then show ?thesis by simp
next
  case (Cons x xs')
  have "fold max xs 0 = Max (set (0 # xs))"
    by (simp only: Max.set_eq_fold)
  also have "\<dots> = Max (set xs)"
    using Cons by (simp add: max_def)
  finally show ?thesis using Cons by simp
qed

section \<open>Functions and their complexity\<close>

lemma python_result_functions:
  assumes "parse code = Inr tree"
  shows "\<exists>r. analyze_python parse code = Inr r \<and>
     map fn_complexity (functions_list r) =
       map calculate_cyclomatic_complexity (filter is_FunctionDef (walk tree)) \<and>
     function_count r = length (filter is_FunctionDef (walk tree)) \<and>
     cyclomatic_complexity r =
       fold max (map calculate_cyclomatic_complexity (filter is_FunctionDef (walk tree))) 0"
  using assms
  by (simp add: analyze_python_parsed analyze_python_try_Inr foldl_visit_node_functions
      foldl_visit_node_count foldl_visit_node_complexity new_result_def)

text \<open>
  Claim C3. When the source parses, the entries of \<open>functions\<close> are those of the
  \<open>FunctionDef\<close> nodes of the tree, in the order of the walk, and the complexity of each
  is 1 plus the number of descendants of its node that are an \<open>If\<close>, \<open>While\<close>, \<open>For\<close>,
  \<open>AsyncFor\<close>, \<open>AsyncWith\<close>, \<open>Try\<close>, \<open>ExceptHandler\<close>, \<open>Assert\<close>, \<open>BoolOp\<close> or
  \<open>comprehension\<close> node. A function with exactly one \<open>if\<close>, one \<open>for\<close> and no other
  such node has complexity 3.
\<close>

theorem function_complexity:
  assumes "parse code = Inr tree"
  shows "\<exists>r. analyze_python parse code = Inr r \<and>
     list_all2 (\<lambda>f node. fn_complexity f = 1 + branching_descendants node \<and>
                  (one_if_one_for node \<longrightarrow> fn_complexity f = 3))
       (functions_list r) (filter is_FunctionDef (walk tree))"
proof -
  obtain r where r: "analyze_python parse code = Inr r"
    and m: "map fn_complexity (functions_list r) =
       map calculate_cyclomatic_complexity (filter is_FunctionDef (walk tree))"
    using python_result_functions [of parse code tree, OF assms] by blast
  have "list_all2 (\<lambda>f node. fn_complexity f = calculate_cyclomatic_complexity node)
      (functions_list r) (filter is_FunctionDef (walk tree))"
    using m by (simp add: list_all2_conv_all_nth list_eq_iff_nth_eq)
  then have "list_all2 (\<lambda>f node. fn_complexity f = 1 + branching_descendants node \<and>
                  (one_if_one_for node \<longrightarrow> fn_complexity f = 3))
       (functions_list r) (filter is_FunctionDef (walk tree))"
  proof (rule list.rel_mono_strong)
    fix f node
    assume "node \<in> set (filter is_FunctionDef (walk tree))"
      and "fn_complexity f = calculate_cyclomatic_complexity node"
    then have "fn_complexity f = 1 + branching_descendants node"
      by (simp add: complexity_FunctionDef)
    then show "fn_complexity f = 1 + branching_descendants node \<and>
                  (one_if_one_for node \<longrightarrow> fn_complexity f = 3)"
      by (simp add: one_if_one_for_def)
  qed
  with r show ?thesis by (intro exI [of _ r]) simp
qed

theorem function_complexity_witness:
  "parse_gives loop_tree loop_source = Inr loop_tree \<and>
   filter is_FunctionDef (walk loop_tree) = [loop_function] \<and>
   one_if_one_for loop_function \<and>
   (\<exists>r. analyze_python (parse_gives loop_tree) loop_source = Inr r \<and>
        map fn_complexity (functions_list r) = [3])"
proof -
  have p: "parse_gives loop_tree loop_source = Inr loop_tree"
    by (simp add: parse_gives_def)
  have w: "filter is_FunctionDef (walk loop_tree) = [loop_function]"
    by code_simp
  have o: "one_if_one_for loop_function"
    by code_simp
  obtain r where r: "analyze_python (parse_gives loop_tree) loop_source = Inr r"
    and l: "list_all2 (\<lambda>f node. fn_complexity f = 1 + branching_descendants node \<and>
                  (one_if_one_for node \<longrightarrow> fn_complexity f = 3))
       (functions_list r) [loop_function]"
    using function_complexity [of "parse_gives loop_tree" loop_source loop_tree, OF p] unfolding w by blast
  from l o have "map fn_complexity (functions_list r) = [3]"
    by (auto simp: list_all2_Cons2)
  with r have "\<exists>r. analyze_python (parse_gives loop_tree) loop_source = Inr r \<and>
        map fn_complexity (functions_list r) = [3]"
    by (intro exI [of _ r]) simp
  with p w o show ?thesis by (intro conjI)
qed

text \<open>
  Claim C4, as the code has it. When the source parses, \<open>function_count\<close> is the number
  of entries of \<open>functions\<close>, each entry has a complexity of at least 1, and the
  \<open>cyclomatic_complexity\<close> of the record is the greatest of them when a function is
  detected, and \<open>0\<close> when none is.
\<close>

theorem record_complexity:
  assumes "parse code = Inr tree"
  shows "\<exists>r. analyze_python parse code = Inr r \<and>
     function_count r = length (functions_list r) \<and>
     list_all (\<lambda>f. 1 \<le> fn_complexity f) (functions_list r) \<and>
     cyclomatic_complexity r =
       (if function_count r = 0 then 0 else Max (set (map fn_complexity (functions_list r))))"
proof -
  let ?cs = "map calculate_cyclomatic_complexity (filter is_FunctionDef (walk tree))"
  obtain r where r: "analyze_python parse code = Inr r"
    and m: "map fn_complexity (functions_list r) = ?cs"
    and n: "function_count r = length (filter is_FunctionDef (walk tree))"
    and c: "cyclomatic_complexity r = fold max ?cs 0"
    using python_result_functions [of parse code tree, OF assms] by blast
  have len: "function_count r = length (functions_list r)"
    using n arg_cong [OF m, of length] by simp
  have "list_all (\<lambda>c. 1 \<le> c) ?cs"
    by (simp add: list_all_iff calculate_cyclomatic_complexity_def foldl_complexity_step)
  then have "list_all (\<lambda>c. 1 \<le> c) (map fn_complexity (functions_list r))"
    by (simp only: m)
  then have pos: "list_all (\<lambda>f. 1 \<le> fn_complexity f) (functions_list r)"
    by (simp add: list_all_iff)
  have "cyclomatic_complexity r =
      (if map fn_complexity (functions_list r) = [] then 0
       else Max (set (map fn_complexity (functions_list r))))"
    by (simp only: c m fold_max_Max)
  then have "cyclomatic_complexity r =
       (if function_count r = 0 then 0 else Max (set (map fn_complexity (functions_list r))))"
    using len by simp
  with r len pos show ?thesis by (intro exI [of _ r]) simp
qed

theorem record_complexity_witness:
  "parse_gives loop_tree loop_source = Inr loop_tree \<and>
   (\<exists>r. analyze_python (parse_gives loop_tree) loop_source = Inr r \<and>
        function_count r = 1 \<and> cyclomatic_complexity r = 3)"
proof -
  have p: "parse_gives loop_tree loop_source = Inr loop_tree"
    by (simp add: parse_gives_def)
  obtain r where r: "analyze_python (parse_gives loop_tree) loop_source = Inr r"
    and c: "cyclomatic_complexity r =
       (if function_count r = 0 then 0 else Max (set (map fn_complexity (functions_list r))))"
    using record_complexity [of "parse_gives loop_tree" loop_source loop_tree, OF p] by blast
  have "analyze_python (parse_gives loop_tree) loop_source =
     Inr (new_result\<lparr>lines_of_code := 4, function_count := 1, cyclomatic_complexity := 3,
            functions_list := [\<lparr>fn_name = str ''f'', fn_line = 1, fn_complexity = 3, fn_args = 1\<rparr>]\<rparr>)"
    by code_simp
  with r have "function_count r = 1" "map fn_complexity (functions_list r) = [3]"
    by auto
  with c have "function_count r = 1 \<and> cyclomatic_complexity r = 3"
    by simp
  with r have "\<exists>r. analyze_python (parse_gives loop_tree) loop_source = Inr r \<and>
        function_count r = 1 \<and> cyclomatic_complexity r = 3"
    by (intro exI [of _ r]) simp
  with p show ?thesis by (intro conjI)
qed

text \<open>
  The claim as the specification words it fails where no function is detected: for the
  source \<open>x = 1\<close> the record has \<open>cyclomatic_complexity = 0\<close>, neither 1 nor at least 1.
\<close>

theorem record_complexity_counterexample:
  "analyze_python (parse_gives assign_tree) (str ''x = 1'') = Inr (new_result\<lparr>lines_of_code := 1\<rparr>) \<and>
   function_count (new_result\<lparr>lines_of_code := 1\<rparr>) = 0 \<and>
   cyclomatic_complexity (new_result\<lparr>lines_of_code := 1\<rparr>) = 0"
  by code_simp

text \<open>
  Claim C9. \<open>isinstance(node, ast.FunctionDef)\<close> is false of an \<open>AsyncFunctionDef\<close> node.
  When the tree of the source has no \<open>FunctionDef\<close> node, so that every function
  definition in it is an \<open>async def\<close>, \<open>function_count\<close> is 0, \<open>functions\<close> is empty and
  \<open>cyclomatic_complexity\<close> is 0, whatever the coroutines contain.
\<close>

theorem async_functions_not_counted:
  assumes "parse code = Inr tree" and "filter is_FunctionDef (walk tree) = []"
  shows "\<exists>r. analyze_python parse code = Inr r \<and>
     function_count r = 0 \<and> functions_list r = [] \<and> cyclomatic_complexity r = 0"
  using python_result_functions [of parse code tree, OF assms(1)] assms(2) by auto

theorem async_functions_not_counted_witness:
  "parse_gives async_tree async_source = Inr async_tree \<and>
   filter is_FunctionDef (walk async_tree) = [] \<and>
   analyze_python (parse_gives async_tree) async_source = Inr (new_result\<lparr>lines_of_code := 3\<rparr>)"
proof -
  have p: "parse_gives async_tree async_source = Inr async_tree"
    by (simp add: parse_gives_def)
  have w: "filter is_FunctionDef (walk async_tree) = []"
    by code_simp
  obtain r where r: "analyze_python (parse_gives async_tree) async_source = Inr r"
    and "function_count r = 0" "functions_list r = []" "cyclomatic_complexity r = 0"
    using async_functions_not_counted [of "parse_gives async_tree" async_source async_tree, OF p w] by blast
  moreover have "analyze_python (parse_gives async_tree) async_source
      = Inr (new_result\<lparr>lines_of_code := 3\<rparr>)"
    by code_simp
  ultimately show ?thesis using p w by simp
qed

section \<open>Separator lines\<close>

lemma separator_line_generic: "generic_comment_line separator_line"
  by code_simp

lemma separator_line_python: "python_comment_step st separator_line = st"
proof -
  have "strip separator_line = separator_line"
    by code_simp
  moreover have "startswith separator_line (replicate 70 (Latin1 (CHR ''#'')))"
    by code_simp
  ultimately show ?thesis
    by (simp add: python_comment_step_def split: prod.splits)
qed

lemma python_comments_without_separator:
  "python_comments (pre @ [separator_line] @ post) = python_comments (pre @ post)"
  by (simp add: python_comments_def separator_line_python)

text \<open>
  Claim C6. Let one line of the source be a line of 70 \<open>#\<close> characters. The generic
  analysis counts that line in \<open>comment_lines\<close>, next to the comment lines before and
  after it. When the source parses, the comment loop of the Python analysis puts the
  same entries into \<open>comments\<close> as it does for the lines without the separator line: the
  line adds no entry and no text.
\<close>

theorem separator_line_handling:
  assumes "splitlines code = pre @ [separator_line] @ post"
  shows "(\<exists>g. analyze_generic code = Inr g \<and>
            comment_lines g = length (filter generic_comment_line pre) + 1
                              + length (filter generic_comment_line post)) \<and>
         (\<forall>tree. parse code = Inr tree \<longrightarrow>
            (\<exists>r. analyze_python parse code = Inr r \<and> comments r = python_comments (pre @ post)))"
proof (intro conjI allI impI)
  show "\<exists>g. analyze_generic code = Inr g \<and>
            comment_lines g = length (filter generic_comment_line pre) + 1
                              + length (filter generic_comment_line post)"
    by (simp add: analyze_generic_Inr assms separator_line_generic)
next
  fix tree
  assume "parse code = Inr tree"
  then show "\<exists>r. analyze_python parse code = Inr r \<and> comments r = python_comments (pre @ post)"
    using python_comments_without_separator [of pre post]
    by (simp add: analyze_python_parsed analyze_python_try_Inr assms python_comments_def)
qed

theorem separator_line_handling_witness:
  "splitlines separator_source = [str ''x = 1''] @ [separator_line] @ [str ''# note''] \<and>
   (\<exists>g. analyze_generic separator_source = Inr g \<and> comment_lines g = 2) \<and>
   parse_gives assign_tree separator_source = Inr assign_tree \<and>
   (\<exists>r. analyze_python (parse_gives assign_tree) separator_source = Inr r \<and>
        comments r = [str ''note''])"
proof -
  have s: "splitlines separator_source = [str ''x = 1''] @ [separator_line] @ [str ''# note'']"
    by code_simp
  have p: "parse_gives assign_tree separator_source = Inr assign_tree"
    by (simp add: parse_gives_def)
  have g: "length (filter generic_comment_line [str ''x = 1'']) + 1
      + length (filter generic_comment_line [str ''# note'']) = 2"
    by code_simp
  have c: "python_comments ([str ''x = 1''] @ [str ''# note'']) = [str ''note'']"
    by code_simp
  note t = separator_line_handling [of separator_source "[str ''x = 1'']" "[str ''# note'']"
      "parse_gives assign_tree", OF s]
  have "\<exists>g. analyze_generic separator_source = Inr g \<and> comment_lines g = 2"
    using t [THEN conjunct1] unfolding g .
  moreover have "\<exists>r. analyze_python (parse_gives assign_tree) separator_source = Inr r \<and>
        comments r = [str ''note'']"
    using t [THEN conjunct2, rule_format, OF p] unfolding c .
  ultimately show ?thesis
    using s p by (intro conjI)
qed

section \<open>Block comments\<close>

text \<open>
  A block comment of \<open>N\<close> lines: a line whose stripped text starts with \<open>/*\<close> and has no
  \<open>*/\<close>, then \<open>N - 2\<close> lines without \<open>*/\<close>, then a line with \<open>*/\<close>. From a state outside a
  block comment, the Java loop adds \<open>N\<close> to the comment lines and one entry to the
  comments, the non-empty fragments joined by single spaces (no entry when every
  fragment is empty). The JavaScript loop adds \<open>N\<close> to the comment lines as well, and puts
  the opening and the closing fragment into the comments as they are.
\<close>

lemma startswith_block_start:
  assumes "startswith s (str ''/*'')"
  shows "\<not> startswith s (str ''//'')" and "str_find s (str ''/*'') = 0"
  using assms by (cases s; cases "tl s"; auto simp: str_def)+

lemma slice_from_nonneg: "0 \<le> i \<Longrightarrow> slice_from s i = drop (nat i) s"
  by (simp add: slice_from_def slice_index_def min_def)

lemma java_step_open:
  assumes "\<not> j_in_block_comment st" "startswith (strip opener) (str ''/*'')"
    "\<not> str_contains (str ''*/'') (strip opener)"
  shows "java_step st opener =
     st\<lparr>j_in_block_comment := True, j_comment_lines := j_comment_lines st + 1,
        j_block_comment_content :=
          j_block_comment_content st @ filter (\<lambda>f. f \<noteq> []) [opening_fragment opener]\<rparr>"
  using assms
  by (simp add: java_step_def Let_def startswith_block_start slice_from_nonneg
      opening_fragment_def)

lemma java_step_inner:
  assumes "j_in_block_comment st" "\<not> str_contains (str ''*/'') line"
  shows "java_step st line =
     st\<lparr>j_comment_lines := j_comment_lines st + 1,
        j_block_comment_content :=
          j_block_comment_content st @ filter (\<lambda>f. f \<noteq> []) [inner_fragment line]\<rparr>"
  using assms by (simp add: java_step_def Let_def inner_fragment_def)

lemma java_step_close:
  assumes "j_in_block_comment st" "str_contains (str ''*/'') line"
  shows "java_step st line =
     st\<lparr>j_in_block_comment := False, j_comment_lines := j_comment_lines st + 1,
        j_comments := j_comments st @
          (let content = j_block_comment_content st
                           @ filter (\<lambda>f. f \<noteq> []) [closing_fragment line]
           in if content = [] then [] else [join (str '' '') content]),
        j_block_comment_content := []\<rparr>"
  using assms by (simp add: java_step_def Let_def closing_fragment_def)

lemma java_steps_inner:
  assumes "j_in_block_comment st" "list_all (\<lambda>m. \<not> str_contains (str ''*/'') m) middles"
  shows "foldl java_step st middles =
     st\<lparr>j_comment_lines := j_comment_lines st + length middles,
        j_block_comment_content :=
          j_block_comment_content st @ filter (\<lambda>f. f \<noteq> []) (map inner_fragment middles)\<rparr>"
  using assms
proof (induction middles arbitrary: st)
  case Nil
  then show ?case by simp
next
  case (Cons m middles)
  have step: "java_step st m =
     st\<lparr>j_comment_lines := j_comment_lines st + 1,
        j_block_comment_content :=
          j_block_comment_content st @ filter (\<lambda>f. f \<noteq> []) [inner_fragment m]\<rparr>"
    using Cons.prems by (simp add: java_step_inner)
  have "foldl java_step (java_step st m) middles =
     (java_step st m)\<lparr>j_comment_lines := j_comment_lines (java_step st m) + length middles,
        j_block_comment_content :=
          j_block_comment_content (java_step st m)
          @ filter (\<lambda>f. f \<noteq> []) (map inner_fragment middles)\<rparr>"
    using Cons.prems by (intro Cons.IH) (simp_all add: step)
  then show ?case
    by (simp add: step)
qed

lemma java_block_comment_merged:
  assumes "\<not> j_in_block_comment st" "j_block_comment_content st = []"
    and "startswith (strip opener) (str ''/*'')" "\<not> str_contains (str ''*/'') (strip opener)"
    and "list_all (\<lambda>m. \<not> str_contains (str ''*/'') m) middles"
    and "str_contains (str ''*/'') closer"
  shows "foldl java_step st (opener # middles @ [closer]) =
     st\<lparr>j_comment_lines := j_comment_lines st + (length middles + 2),
        j_comments := j_comments st @
          (if block_fragments opener middles closer = [] then []
           else [join (str '' '') (block_fragments opener middles closer)])\<rparr>"
proof -
  let ?s1 = "java_step st opener"
  let ?s2 = "foldl java_step ?s1 middles"
  have s1: "?s1 = st\<lparr>j_in_block_comment := True, j_comment_lines := j_comment_lines st + 1,
        j_block_comment_content := filter (\<lambda>f. f \<noteq> []) [opening_fragment opener]\<rparr>"
    using assms(1-4) by (simp add: java_step_open)
  have s2: "?s2 = st\<lparr>j_in_block_comment := True,
        j_comment_lines := j_comment_lines st + 1 + length middles,
        j_block_comment_content :=
          filter (\<lambda>f. f \<noteq> []) (opening_fragment opener # map inner_fragment middles)\<rparr>"
    using assms(5) by (subst java_steps_inner) (simp_all add: s1)
  have "foldl java_step st (opener # middles @ [closer]) = java_step ?s2 closer"
    by simp
  also have "\<dots> = st\<lparr>j_comment_lines := j_comment_lines st + (length middles + 2),
        j_comments := j_comments st @
          (if block_fragments opener middles closer = [] then []
           else [join (str '' '') (block_fragments opener middles closer)])\<rparr>"
    using assms(1,2,6)
    by (subst java_step_close) (simp_all add: s2 block_fragments_def Let_def)
  finally show ?thesis .
qed

lemma js_step_open:
  assumes "\<not> s_in_block_comment st" "startswith (strip opener) (str ''/*'')"
    "\<not> str_contains (str ''*/'') (strip opener)"
  shows "js_step st opener =
     st\<lparr>s_in_block_comment := True, s_comment_lines := s_comment_lines st + 1,
        s_comments := s_comments st @ filter (\<lambda>f. f \<noteq> []) [opening_fragment opener]\<rparr>"
  using assms
  by (simp add: js_step_def Let_def startswith_block_start slice_from_nonneg
      opening_fragment_def)

lemma js_steps_inner:
  assumes "s_in_block_comment st" "list_all (\<lambda>m. \<not> str_contains (str ''*/'') m) middles"
  shows "foldl js_step st middles =
     st\<lparr>s_comment_lines := s_comment_lines st + length middles\<rparr>"
  using assms
proof (induction middles arbitrary: st)
  case Nil
  then show ?case by simp
next
  case (Cons m middles)
  have step: "js_step st m = st\<lparr>s_comment_lines := s_comment_lines st + 1\<rparr>"
    using Cons.prems by (simp add: js_step_def Let_def)
  have "foldl js_step (js_step st m) middles =
     (js_step st m)\<lparr>s_comment_lines := s_comment_lines (js_step st m) + length middles\<rparr>"
    using Cons.prems by (intro Cons.IH) (simp_all add: step)
  then show ?case
    by (simp add: step)
qed

lemma js_step_close:
  assumes "s_in_block_comment st" "str_contains (str ''*/'') line"
  shows "js_step st line =
     st\<lparr>s_in_block_comment := False, s_comment_lines := s_comment_lines st + 1,
        s_comments := s_comments st @ filter (\<lambda>f. f \<noteq> []) [closing_fragment line]\<rparr>"
  using assms by (simp add: js_step_def Let_def closing_fragment_def)

lemma javascript_block_comment_entries:
  assumes "\<not> s_in_block_comment st"
    and "startswith (strip opener) (str ''/*'')" "\<not> str_contains (str ''*/'') (strip opener)"
    and "list_all (\<lambda>m. \<not> str_contains (str ''*/'') m) middles"
    and "str_contains (str ''*/'') closer"
  shows "foldl js_step st (opener # middles @ [closer]) =
     st\<lparr>s_comment_lines := s_comment_lines st + (length middles + 2),
        s_comments := s_comments st
          @ filter (\<lambda>f. f \<noteq> []) [opening_fragment opener, closing_fragment closer]\<rparr>"
proof -
  let ?s1 = "js_step st opener"
  let ?s2 = "foldl js_step ?s1 middles"
  have s1: "?s1 = st\<lparr>s_in_block_comment := True, s_comment_lines := s_comment_lines st + 1,
        s_comments := s_comments st @ filter (\<lambda>f. f \<noteq> []) [opening_fragment opener]\<rparr>"
    using assms(1-3) by (simp add: js_step_open)
  have s2: "?s2 = st\<lparr>s_in_block_comment := True,
        s_comment_lines := s_comment_lines st + 1 + length middles,
        s_comments := s_comments st @ filter (\<lambda>f. f \<noteq> []) [opening_fragment opener]\<rparr>"
    using assms(4) by (subst js_steps_inner) (simp_all add: s1)
  have "foldl js_step st (opener # middles @ [closer]) = js_step ?s2 closer"
    by simp
  also have "\<dots> = st\<lparr>s_comment_lines := s_comment_lines st + (length middles + 2),
        s_comments := s_comments st
          @ filter (\<lambda>f. f \<noteq> []) [opening_fragment opener, closing_fragment closer]\<rparr>"
    using assms(1,5)
    by (subst js_step_close) (simp_all add: s2)
  finally show ?thesis .
qed

text \<open>
  Claim C5, at a block comment of five lines followed by a function. Both analyses count
  five comment lines. The Java analysis puts the one merged entry \<open>a b c d e\<close> into
  \<open>comments\<close>; the JavaScript analysis keeps no fragments between the lines and puts the
  two entries \<open>a\<close> and \<open>e\<close> there, the text of the inner lines being lost.
\<close>

theorem javascript_block_comment_split:
  "analyze_javascript alnum_none block_source =
     Inr (new_result\<lparr>lines_of_code := 6, comment_lines := 5, function_count := 1,
            class_count := 1, comment_ratio := 5 / 6, comments := [str ''a'', str ''e'']\<rparr>) \<and>
   analyze_java alnum_none block_source =
     Inr (new_result\<lparr>lines_of_code := 6, comment_lines := 5, comment_ratio := 5 / 6,
            comments := [str ''a b c d e'']\<rparr>)"
  by code_simp

section \<open>The class pattern of the JavaScript analysis\<close>

lemma startswith_append: "startswith (w @ t) w"
  by (induction w) simp_all

lemma ends_Lit: "ends alnum (Lit w) (w @ t) = [t]"
  by (simp add: startswith_append)

lemma rep_ends_member:
  assumes "list_all p w" and "m \<le> length w"
  shows "t \<in> set (rep_ends p m (w @ t))"
proof -
  have "takeWhile p (w @ t) = w @ takeWhile p t"
    using assms(1) by (simp add: list_all_iff takeWhile_append2)
  then have "length w < Suc (length (takeWhile p (w @ t)))"
    by simp
  then have "length w \<in> set (rev [m ..< Suc (length (takeWhile p (w @ t)))])"
    using assms(2) by (simp del: takeWhile_append) arith
  then have "drop (length w) (w @ t) \<in> set (rep_ends p m (w @ t))"
    unfolding rep_ends_def set_map by (rule imageI)
  then show ?thesis by simp
qed

lemma ends_Star_member: "list_all (in_class alnum c) w \<Longrightarrow> t \<in> set (ends alnum (Star c) (w @ t))"
  by (simp add: rep_ends_member)

lemma ends_Plus_member:
  "list_all (in_class alnum c) w \<Longrightarrow> w \<noteq> [] \<Longrightarrow> t \<in> set (ends alnum (Plus c) (w @ t))"
proof -
  assume "list_all (in_class alnum c) w" and "w \<noteq> []"
  then have "t \<in> set (rep_ends (in_class alnum c) 1 (w @ t))"
    by (intro rep_ends_member) (simp_all add: Suc_le_eq)
  then show ?thesis by simp
qed

lemma ends_Seq_member:
  "u \<in> set (ends alnum a s) \<Longrightarrow> t \<in> set (ends alnum b u) \<Longrightarrow> t \<in> set (ends alnum (Seq a b) s)"
  by auto

lemma findall_count_found:
  "ends alnum r s \<noteq> [] \<Longrightarrow> 1 \<le> findall_count alnum r (pre @ s)"
proof (induction pre)
  case Nil
  then show ?case
    by (subst findall_count.simps) (simp split: list.splits)
next
  case (Cons c pre)
  then have "1 \<le> findall_count alnum r (pre @ s)" by simp
  then show ?case
    by (subst findall_count.simps) (simp split: list.splits)
qed

lemma function_declaration_matches:
  assumes "list_all isspace ws1" "ws1 \<noteq> []" "list_all (isword alnum) name" "name \<noteq> []"
    and "list_all isspace ws2" "list_all (\<lambda>c. c \<noteq> Latin1 (CHR '')'')) params" "list_all isspace ws3"
  shows "post \<in> set (ends alnum js_class_pattern
     (str ''function'' @ ws1 @ name @ ws2 @ str ''('' @ params @ str '')'' @ ws3 @ str ''{'' @ post))"
proof -
  have c: "list_all (in_class alnum CSpace) ws1" "list_all (in_class alnum CWord) name"
    "list_all (in_class alnum CSpace) ws2" "list_all (in_class alnum (CNot (Latin1 (CHR '')'')))) params"
    "list_all (in_class alnum CSpace) ws3"
    using assms by (simp_all add: list_all_iff)
  have "post \<in> set (ends alnum (Lit (str ''{'')) (str ''{'' @ post))"
    by (simp only: ends_Lit) simp
  then have "post \<in> set (ends alnum (Seq (Star CSpace) (Lit (str ''{''))) (ws3 @ str ''{'' @ post))"
    by (rule ends_Seq_member [OF ends_Star_member [OF c(5)]])
  then have "post \<in> set (ends alnum (Seq (Lit (str '')'')) (Seq (Star CSpace) (Lit (str ''{''))))
      (str '')'' @ ws3 @ str ''{'' @ post))"
    by (rule ends_Seq_member [rotated]) (simp only: ends_Lit, simp)
  then have "post \<in> set (ends alnum (Seq (Star (CNot (Latin1 (CHR '')''))))
        (Seq (Lit (str '')'')) (Seq (Star CSpace) (Lit (str ''{'')))))
      (params @ str '')'' @ ws3 @ str ''{'' @ post))"
    by (rule ends_Seq_member [OF ends_Star_member [OF c(4)]])
  then have "post \<in> set (ends alnum (Seq (Lit (str ''('')) (Seq (Star (CNot (Latin1 (CHR '')''))))
        (Seq (Lit (str '')'')) (Seq (Star CSpace) (Lit (str ''{''))))))
      (str ''('' @ params @ str '')'' @ ws3 @ str ''{'' @ post))"
    by (rule ends_Seq_member [rotated]) (simp only: ends_Lit, simp)
  then have "post \<in> set (ends alnum (Seq (Star CSpace) (Seq (Lit (str ''('')) (Seq (Star (CNot (Latin1 (CHR '')''))))
        (Seq (Lit (str '')'')) (Seq (Star CSpace) (Lit (str ''{'')))))))
      (ws2 @ str ''('' @ params @ str '')'' @ ws3 @ str ''{'' @ post))"
    by (rule ends_Seq_member [OF ends_Star_member [OF c(3)]])
  then have "post \<in> set (ends alnum (Seq (Plus CWord) (Seq (Star CSpace) (Seq (Lit (str ''(''))
        (Seq (Star (CNot (Latin1 (CHR '')'')))) (Seq (Lit (str '')'')) (Seq (Star CSpace) (Lit (str ''{''))))))))
      (name @ ws2 @ str ''('' @ params @ str '')'' @ ws3 @ str ''{'' @ post))"
    by (rule ends_Seq_member [OF ends_Plus_member [OF c(2) assms(4)]])
  then have "post \<in> set (ends alnum (Seq (Plus CSpace) (Seq (Plus CWord) (Seq (Star CSpace)
        (Seq (Lit (str ''('')) (Seq (Star (CNot (Latin1 (CHR '')'')))) (Seq (Lit (str '')''))
        (Seq (Star CSpace) (Lit (str ''{'')))))))))
      (ws1 @ name @ ws2 @ str ''('' @ params @ str '')'' @ ws3 @ str ''{'' @ post))"
    by (rule ends_Seq_member [OF ends_Plus_member [OF c(1) assms(2)]])
  then have "post \<in> set (ends alnum (Seq (Lit (str ''function'')) (Seq (Plus CSpace) (Seq (Plus CWord)
        (Seq (Star CSpace) (Seq (Lit (str ''('')) (Seq (Star (CNot (Latin1 (CHR '')'')))) (Seq (Lit (str '')''))
        (Seq (Star CSpace) (Lit (str ''{''))))))))))
      (str ''function'' @ ws1 @ name @ ws2 @ str ''('' @ params @ str '')'' @ ws3 @ str ''{'' @ post))"
    by (rule ends_Seq_member [rotated]) (simp only: ends_Lit, simp)
  then show ?thesis
    unfolding js_class_pattern_def alts.simps cat.simps ends.simps(5) set_append
    by (rule UnI2)
qed

text \<open>
  Claim C10, as the code has it. The class pattern of the JavaScript analysis has the
  alternative \<open>function\s+\w+\s*\([^)]*\)\s*\{\<close>. When the source contains a function
  declaration that this alternative matches (the word \<open>function\<close>, white space, a name
  of \<open>\w\<close> characters, a parameter list in parentheses with no \<open>)\<close> inside and an
  opening brace), \<open>class_count\<close> is at least 1, also without any class declaration.
\<close>

theorem js_function_counted_as_class:
  assumes "code = pre @ str ''function'' @ ws1 @ name @ ws2 @ str ''('' @ params @ str '')''
              @ ws3 @ str ''{'' @ post"
    and "list_all isspace ws1" "ws1 \<noteq> []" "list_all (isword alnum) name" "name \<noteq> []"
    and "list_all isspace ws2" "list_all (\<lambda>c. c \<noteq> Latin1 (CHR '')'')) params"
    and "list_all isspace ws3"
  shows "\<exists>r. analyze_javascript alnum code = Inr r \<and> 1 \<le> class_count r"
proof -
  have "ends alnum js_class_pattern
     (str ''function'' @ ws1 @ name @ ws2 @ str ''('' @ params @ str '')'' @ ws3 @ str ''{'' @ post)
     \<noteq> []"
    using function_declaration_matches [OF assms(2-8), of post] by auto
  then have "1 \<le> findall_count alnum js_class_pattern code"
    unfolding assms(1) by (rule findall_count_found)
  then show ?thesis
    by (simp add: analyze_javascript_Inr)
qed

theorem js_function_counted_as_class_witness:
  "analyze_javascript alnum_none (str ''function f() {}'') =
     Inr (new_result\<lparr>lines_of_code := 1, function_count := 1, class_count := 1\<rparr>) \<and>
   str_find (str ''function f() {}'') (str ''class'') = -1"
proof -
  have "\<exists>r. analyze_javascript alnum_none (str ''function f() {}'') = Inr r \<and> 1 \<le> class_count r"
    by (rule js_function_counted_as_class
        [where alnum = alnum_none and pre = "[]" and ?ws1.0 = "str '' ''" and name = "str ''f''"
           and ?ws2.0 = "[]" and params = "[]" and ?ws3.0 = "str '' ''" and post = "str ''}''"])
      (simp_all add: str_def)
  moreover have "analyze_javascript alnum_none (str ''function f() {}'') =
     Inr (new_result\<lparr>lines_of_code := 1, function_count := 1, class_count := 1\<rparr>)"
    by code_simp
  moreover have "str_find (str ''function f() {}'') (str ''class'') = -1"
    by code_simp
  ultimately show ?thesis by simp
qed

text \<open>
  The claim as the specification words it fails for declarations that the alternative
  does not match: a name with a character outside \<open>\w\<close>, as in \<open>function $x() {}\<close>, or a
  parameter list with a \<open>)\<close> inside, as in \<open>function f(a = g()) {}\<close>. Both sources contain
  a named function declaration and have \<open>class_count = 0\<close>.
\<close>

theorem js_function_counted_as_class_counterexample:
  "analyze_javascript alnum_none (str ''function $x() {}'') =
     Inr (new_result\<lparr>lines_of_code := 1, function_count := 1\<rparr>) \<and>
   analyze_javascript alnum_none (str ''function f(a = g()) {}'') =
     Inr (new_result\<lparr>lines_of_code := 1, function_count := 1\<rparr>) \<and>
   class_count (new_result\<lparr>lines_of_code := 1, function_count := 1\<rparr>) = 0"
  by code_simp

end
